theory Spec2Isabelle
  imports Complex_Main "HOL-Library.Multiset"
begin

unbundle bit_operations_syntax

section \<open>Data model (main.go)\<close>

text \<open>
  \<^verbatim>\<open>time.Duration\<close> is a count of nanoseconds and \<^verbatim>\<open>time.Time\<close> an instant; both are
  modelled as integers. No arithmetic is done on them by the probe loops (only
  \<^verbatim>\<open>Milliseconds\<close> in the graph display divides), so their width plays no role.
\<close>

type_synonym Duration = int
type_synonym Time = int

record Config =
  Hosts :: "string list"
  Interval :: Duration
  Timeout :: Duration
  UseICMP :: bool

text \<open>
  \<^verbatim>\<open>HostStats\<close> without its mutex: every critical section of the source
  (\<^verbatim>\<open>mutex.Lock() ... mutex.Unlock()\<close>) is one atomic state change of the model.
  \<^verbatim>\<open>PacketLoss\<close> is a \<^verbatim>\<open>float64\<close>; it is modelled as a real number, so the rounding
  of the floating-point division is not represented.
\<close>

record HostStats =
  Host :: string
  Latency :: Duration
  PacketLoss :: real
  Timestamps :: "Time list"
  RTTs :: "Duration list"

text \<open>\<^verbatim>\<open>&HostStats{Host: host}\<close> in \<^verbatim>\<open>main\<close>: every other field has its zero value.\<close>

definition new_HostStats :: "string \<Rightarrow> HostStats" where
  "new_HostStats h = \<lparr>Host = h, Latency = 0, PacketLoss = 0, Timestamps = [], RTTs = []\<rparr>"

section \<open>The probe loops\<close>

text \<open>
  The local variables of the two loops. \<^verbatim>\<open>sent\<close> and \<^verbatim>\<open>received\<close> are Go \<^verbatim>\<open>int\<close>s
  (64 bits) that start at 0 and grow by one per probe attempt; they are modelled as
  unbounded integers, and lemma \<open>counters_fit_int64\<close> below shows that they stay inside
  the 64-bit range for every run of fewer than \<open>2 ^ 63\<close> attempts.
\<close>

record pingTCP_vars =
  sent :: int
  received :: int

record pingICMP_vars = pingTCP_vars +
  seq :: int

definition pingTCP_vars0 :: pingTCP_vars where
  "pingTCP_vars0 = \<lparr>sent = 0, received = 0\<rparr>"

definition pingICMP_vars0 :: pingICMP_vars where
  "pingICMP_vars0 = \<lparr>sent = 0, received = 0, seq = 0\<rparr>"

text \<open>The body of \<^verbatim>\<open>icmp.Echo\<close> that \<^verbatim>\<open>pingICMP\<close> builds, and what a loop iteration does to
  the outside world, in program order.\<close>

record icmp_Echo =
  ID :: int
  Seq :: int
  Data :: string

datatype effect =
    DialTimeout string Duration
  | WriteTo icmp_Echo
  | ReadFrom
  | Sleep Duration

text \<open>
  What the network call of one iteration returned.
  \<^verbatim>\<open>net.DialTimeout\<close>: an error, or a connection, with the values that
  \<^verbatim>\<open>time.Since(start)\<close> and \<^verbatim>\<open>time.Now()\<close> then yield.
\<close>

datatype tcp_outcome = DialErr | DialOk Duration Time

text \<open>
  A datagram read from the raw ICMP socket, as \<^verbatim>\<open>icmp.ParseMessage\<close> would see it:
  whether it parses at all, its ICMP type (0 is echo reply), and the identifier and
  sequence number of its body.
\<close>

record datagram =
  well_formed :: bool
  icmp_type :: nat
  echo_id :: int
  echo_seq :: int

text \<open>
  \<^verbatim>\<open>conn.WriteTo\<close> failed; or it succeeded and \<^verbatim>\<open>conn.ReadFrom\<close> failed (deadline
  passed); or both succeeded, with the datagram read and the values of
  \<^verbatim>\<open>time.Since(start)\<close> and \<^verbatim>\<open>time.Now()\<close>.
\<close>

datatype icmp_outcome = WriteErr | ReadErr | ReadOk datagram Duration Time

text \<open>
  One iteration of the loop of \<^verbatim>\<open>pingTCP\<close> (main.go, lines 124-140):
  \<^verbatim>\<open>
  sent++
  conn, err := net.DialTimeout("tcp", host, cfg.Timeout)
  if err == nil {
      received++
      rtt := time.Since(start)
      conn.Close()
      stats.mutex.Lock()
      stats.RTTs = append(stats.RTTs, rtt)
      stats.Latency = rtt
      stats.Timestamps = append(stats.Timestamps, time.Now())
      stats.PacketLoss = float64(sent-received) / float64(sent) * 100
      stats.mutex.Unlock()
  }
  time.Sleep(cfg.Interval)
  \<close>
  The result is the new state and the effects of the iteration.
\<close>

definition pingTCP_iter ::
  "Config \<Rightarrow> string \<Rightarrow> tcp_outcome \<Rightarrow> pingTCP_vars \<times> HostStats
    \<Rightarrow> (pingTCP_vars \<times> HostStats) \<times> effect list" where
  "pingTCP_iter cfg host oc st =
     (case st of (v, stats) \<Rightarrow>
        let v1 = v\<lparr>sent := sent v + 1\<rparr> in
        (case oc of
           DialErr \<Rightarrow> ((v1, stats), [DialTimeout host (Timeout cfg), Sleep (Interval cfg)])
         | DialOk rtt now \<Rightarrow>
             let v2 = v1\<lparr>received := received v1 + 1\<rparr>;
                 stats1 = stats\<lparr>RTTs := RTTs stats @ [rtt]\<rparr>;
                 stats2 = stats1\<lparr>Latency := rtt\<rparr>;
                 stats3 = stats2\<lparr>Timestamps := Timestamps stats2 @ [now]\<rparr>;
                 stats4 = stats3\<lparr>PacketLoss :=
                            real_of_int (sent v2 - received v2) / real_of_int (sent v2) * 100\<rparr>
             in ((v2, stats4), [DialTimeout host (Timeout cfg), Sleep (Interval cfg)])))"

text \<open>
  One iteration of the loop of \<^verbatim>\<open>pingICMP\<close> (main.go, lines 85-118); \<open>pid\<close> is the
  value of \<^verbatim>\<open>os.Getpid()\<close>:
  \<^verbatim>\<open>
  msg := icmp.Message{Type: ipv4.ICMPTypeEcho, Code: 0,
      Body: &icmp.Echo{ID: os.Getpid() & 0xffff, Seq: seq, Data: []byte("PING")}}
  seq++
  b, _ := msg.Marshal(nil)
  start := time.Now()
  conn.SetDeadline(time.Now().Add(cfg.Timeout))
  _, err = conn.WriteTo(b, &net.IPAddr{IP: net.ParseIP(ip)})
  sent++
  if err != nil {
      continue
  }
  resp := make([]byte, 1500)
  n, _, err := conn.ReadFrom(resp)
  if err == nil {
      received++
      rtt := time.Since(start)
      stats.mutex.Lock()
      stats.RTTs = append(stats.RTTs, rtt)
      stats.Latency = rtt
      stats.Timestamps = append(stats.Timestamps, time.Now())
      stats.PacketLoss = float64(sent-received) / float64(sent) * 100
      stats.mutex.Unlock()
  }
  time.Sleep(cfg.Interval)
  \<close>
  The datagram that \<^verbatim>\<open>ReadFrom\<close> returned is never looked at.
\<close>

definition pingICMP_iter ::
  "Config \<Rightarrow> int \<Rightarrow> icmp_outcome \<Rightarrow> pingICMP_vars \<times> HostStats
    \<Rightarrow> (pingICMP_vars \<times> HostStats) \<times> effect list" where
  "pingICMP_iter cfg pid oc st =
     (case st of (v, stats) \<Rightarrow>
        let msg = \<lparr>ID = pid AND 0xffff, Seq = seq v, Data = ''PING''\<rparr>;
            v0 = v\<lparr>seq := seq v + 1\<rparr>;
            v1 = v0\<lparr>sent := sent v0 + 1\<rparr> in
        (case oc of
           WriteErr \<Rightarrow> ((v1, stats), [WriteTo msg])
         | ReadErr \<Rightarrow> ((v1, stats), [WriteTo msg, ReadFrom, Sleep (Interval cfg)])
         | ReadOk d rtt now \<Rightarrow>
             let v2 = v1\<lparr>received := received v1 + 1\<rparr>;
                 stats1 = stats\<lparr>RTTs := RTTs stats @ [rtt]\<rparr>;
                 stats2 = stats1\<lparr>Latency := rtt\<rparr>;
                 stats3 = stats2\<lparr>Timestamps := Timestamps stats2 @ [now]\<rparr>;
                 stats4 = stats3\<lparr>PacketLoss :=
                            real_of_int (sent v2 - received v2) / real_of_int (sent v2) * 100\<rparr>
             in ((v2, stats4), [WriteTo msg, ReadFrom, Sleep (Interval cfg)])))"

section \<open>The other versions of the ICMP loop\<close>

text \<open>
  The repository holds two more versions of the program. In the later one
  (src/unnamed/part_002, lines 111-145) \<^verbatim>\<open>pingICMP\<close> differs from main.go in its
  send-error path only:
  \<^verbatim>\<open>
  _, err = conn.WriteTo(b, &net.IPAddr{IP: net.ParseIP(ip)})
  sent++
  if err != nil {
      time.Sleep(cfg.Interval)
      continue
  }
  \<close>
\<close>

definition pingICMP_iter_part_002 ::
  "Config \<Rightarrow> int \<Rightarrow> icmp_outcome \<Rightarrow> pingICMP_vars \<times> HostStats
    \<Rightarrow> (pingICMP_vars \<times> HostStats) \<times> effect list" where
  "pingICMP_iter_part_002 cfg pid oc st =
     (case st of (v, stats) \<Rightarrow>
        let msg = \<lparr>ID = pid AND 0xffff, Seq = seq v, Data = ''PING''\<rparr>;
            v0 = v\<lparr>seq := seq v + 1\<rparr>;
            v1 = v0\<lparr>sent := sent v0 + 1\<rparr> in
        (case oc of
           WriteErr \<Rightarrow> ((v1, stats), [WriteTo msg, Sleep (Interval cfg)])
         | ReadErr \<Rightarrow> ((v1, stats), [WriteTo msg, ReadFrom, Sleep (Interval cfg)])
         | ReadOk d rtt now \<Rightarrow>
             let v2 = v1\<lparr>received := received v1 + 1\<rparr>;
                 stats1 = stats\<lparr>RTTs := RTTs stats @ [rtt]\<rparr>;
                 stats2 = stats1\<lparr>Latency := rtt\<rparr>;
                 stats3 = stats2\<lparr>Timestamps := Timestamps stats2 @ [now]\<rparr>;
                 stats4 = stats3\<lparr>PacketLoss :=
                            real_of_int (sent v2 - received v2) / real_of_int (sent v2) * 100\<rparr>
             in ((v2, stats4), [WriteTo msg, ReadFrom, Sleep (Interval cfg)])))"

text \<open>
  The earlier version (src/unnamed/part_001, lines 61-110) has one loop, \<^verbatim>\<open>ping\<close>, with
  the package-level \<^verbatim>\<open>interval = 1 * time.Second\<close>:
  \<^verbatim>\<open>
  msg := icmp.Message{...}
  seq++
  b, err := msg.Marshal(nil)
  if err != nil {
      continue
  }
  start := time.Now()
  _, err = conn.WriteTo(b, &net.IPAddr{IP: net.ParseIP(ip)})
  sent++
  if err != nil {
      continue
  }
  conn.SetReadDeadline(time.Now().Add(2 * time.Second))
  resp := make([]byte, 1500)
  n, peer, err := conn.ReadFrom(resp)
  if err != nil {
      stats.mutex.Lock()
      stats.PacketLoss = float64(sent-received) / float64(sent) * 100
      stats.mutex.Unlock()
      time.Sleep(interval)
      continue
  }
  rtt := time.Since(start)
  received++
  m, err := icmp.ParseMessage(1, resp[:n])
  if err == nil && m.Type == ipv4.ICMPTypeEchoReply {
      stats.mutex.Lock()
      stats.RTTs = append(stats.RTTs, rtt)
      stats.Timestamps = append(stats.Timestamps, time.Now())
      stats.Latency = rtt
      stats.PacketLoss = float64(sent-received) / float64(sent) * 100
      stats.mutex.Unlock()
  }
  time.Sleep(interval)
  \<close>
\<close>

definition interval :: Duration where
  "interval = 1 * 1000000000"

datatype ping_outcome = MarshalErr | Marshalled icmp_outcome

definition ping_iter ::
  "int \<Rightarrow> ping_outcome \<Rightarrow> pingICMP_vars \<times> HostStats
    \<Rightarrow> (pingICMP_vars \<times> HostStats) \<times> effect list" where
  "ping_iter pid oc st =
     (case st of (v, stats) \<Rightarrow>
        let msg = \<lparr>ID = pid AND 0xffff, Seq = seq v, Data = ''PING''\<rparr>;
            v0 = v\<lparr>seq := seq v + 1\<rparr> in
        (case oc of
           MarshalErr \<Rightarrow> ((v0, stats), [])
         | Marshalled io \<Rightarrow>
             let v1 = v0\<lparr>sent := sent v0 + 1\<rparr> in
             (case io of
                WriteErr \<Rightarrow> ((v1, stats), [WriteTo msg])
              | ReadErr \<Rightarrow>
                  ((v1, stats\<lparr>PacketLoss :=
                       real_of_int (sent v1 - received v1) / real_of_int (sent v1) * 100\<rparr>),
                   [WriteTo msg, ReadFrom, Sleep interval])
              | ReadOk d rtt now \<Rightarrow>
                  let v2 = v1\<lparr>received := received v1 + 1\<rparr> in
                  if well_formed d \<and> icmp_type d = 0
                  then
                    let stats1 = stats\<lparr>RTTs := RTTs stats @ [rtt]\<rparr>;
                        stats2 = stats1\<lparr>Timestamps := Timestamps stats1 @ [now]\<rparr>;
                        stats3 = stats2\<lparr>Latency := rtt\<rparr>;
                        stats4 = stats3\<lparr>PacketLoss :=
                            real_of_int (sent v2 - received v2) / real_of_int (sent v2) * 100\<rparr>
                    in ((v2, stats4), [WriteTo msg, ReadFrom, Sleep interval])
                  else ((v2, stats), [WriteTo msg, ReadFrom, Sleep interval]))))"

section \<open>The graph display and the life of one host record\<close>

text \<open>\<^verbatim>\<open>Duration.Milliseconds\<close>: integer division by \<open>10\<^sup>6\<close>, truncating towards zero.\<close>

definition Milliseconds :: "Duration \<Rightarrow> int" where
  "Milliseconds d = sgn d * (\<bar>d\<bar> div 1000000)"

text \<open>
  What one tick of \<^verbatim>\<open>displayGraph\<close> (main.go, lines 209-219) does to one record, under
  its lock:
  \<^verbatim>\<open>
  if len(s.RTTs) > 50 {
      s.RTTs = s.RTTs[len(s.RTTs)-50:]
  }
  slice := make([]float64, len(s.RTTs))
  for j, d := range s.RTTs {
      slice[j] = float64(d.Milliseconds())
  }
  plot.Data[i] = slice
  \<close>
\<close>

definition displayGraph_trim :: "HostStats \<Rightarrow> HostStats" where
  "displayGraph_trim s =
     (if length (RTTs s) > 50 then s\<lparr>RTTs := drop (length (RTTs s) - 50) (RTTs s)\<rparr> else s)"

definition displayGraph_row :: "HostStats \<Rightarrow> real list" where
  "displayGraph_row s = map (\<lambda>d. real_of_int (Milliseconds d)) (RTTs s)"

text \<open>
  The life of one record is a sequence of events: iterations of its probe loop (each
  with the outcome of its network call) and ticks of the graph display. The record's
  lock makes each of them atomic with respect to the record. A run is a finite prefix
  of that life: the loops go on for as long as they read \<^verbatim>\<open>run\<close> as true.
  If \<^verbatim>\<open>resolveHost\<close> or \<^verbatim>\<open>icmp.ListenPacket\<close> fails, \<^verbatim>\<open>pingICMP\<close> returns before
  its loop and the run of that record has no probe event.
\<close>

datatype 'o event = Probe 'o | GraphTick

fun host_step ::
  "('o \<Rightarrow> 'v \<times> HostStats \<Rightarrow> ('v \<times> HostStats) \<times> effect list)
    \<Rightarrow> 'o event \<Rightarrow> 'v \<times> HostStats \<Rightarrow> 'v \<times> HostStats" where
  "host_step iter (Probe oc) st = fst (iter oc st)"
| "host_step iter GraphTick st = (fst st, displayGraph_trim (snd st))"

definition host_run ::
  "('o \<Rightarrow> 'v \<times> HostStats \<Rightarrow> ('v \<times> HostStats) \<times> effect list)
    \<Rightarrow> 'o event list \<Rightarrow> 'v \<times> HostStats \<Rightarrow> 'v \<times> HostStats" where
  "host_run iter evs st = foldl (\<lambda>st e. host_step iter e st) st evs"

text \<open>A host of \<^verbatim>\<open>main\<close>, from its creation, in either probe mode.\<close>

definition pingTCP_run :: "Config \<Rightarrow> string \<Rightarrow> tcp_outcome event list \<Rightarrow> pingTCP_vars \<times> HostStats" where
  "pingTCP_run cfg h evs = host_run (pingTCP_iter cfg h) evs (pingTCP_vars0, new_HostStats h)"

definition pingICMP_run ::
  "Config \<Rightarrow> int \<Rightarrow> string \<Rightarrow> icmp_outcome event list \<Rightarrow> pingICMP_vars \<times> HostStats" where
  "pingICMP_run cfg pid h evs = host_run (pingICMP_iter cfg pid) evs (pingICMP_vars0, new_HostStats h)"

text \<open>The instants at which the successful probes of a run were recorded, in order.\<close>

fun tcp_success_times :: "tcp_outcome event list \<Rightarrow> Time list" where
  "tcp_success_times [] = []"
| "tcp_success_times (Probe (DialOk rtt now) # evs) = now # tcp_success_times evs"
| "tcp_success_times (e # evs) = tcp_success_times evs"

fun icmp_success_times :: "icmp_outcome event list \<Rightarrow> Time list" where
  "icmp_success_times [] = []"
| "icmp_success_times (Probe (ReadOk d rtt now) # evs) = now # icmp_success_times evs"
| "icmp_success_times (e # evs) = icmp_success_times evs"

text \<open>The configuration of the README: three hosts, one probe per second, two seconds
  of timeout, TCP mode.\<close>

definition example_cfg :: Config where
  "example_cfg = \<lparr>Hosts = [''8.8.8.8:53'', ''1.1.1.1:53'', ''google.com:80''],
     Interval = 1000000000, Timeout = 2000000000, UseICMP = False\<rparr>"

text \<open>
  Consecutive successful TCP probes, one per (rtt, instant) pair; the same events with
  a tick of the graph display after each of them; and the \<open>n\<close> samples in which
  sample \<open>i\<close> took \<open>i\<close> milliseconds and was recorded at second \<open>i\<close>.
\<close>

definition tcp_successes :: "(Duration \<times> Time) list \<Rightarrow> tcp_outcome event list" where
  "tcp_successes ps = map (\<lambda>p. Probe (DialOk (fst p) (snd p))) ps"

definition tick_after_each :: "'o event list \<Rightarrow> 'o event list" where
  "tick_after_each evs = concat (map (\<lambda>e. [e, GraphTick]) evs)"

definition samples :: "nat \<Rightarrow> (Duration \<times> Time) list" where
  "samples n = map (\<lambda>i. (int i * 1000000, int i * 1000000000)) [1..<Suc n]"

text \<open>The invariant of the probe loops on their counters and on the stored loss.\<close>

definition counters_ok :: "'a pingTCP_vars_scheme \<times> HostStats \<Rightarrow> bool" where
  "counters_ok st \<longleftrightarrow>
     0 \<le> received (fst st) \<and> received (fst st) \<le> sent (fst st)
     \<and> 0 \<le> PacketLoss (snd st) \<and> PacketLoss (snd st) \<le> 100"

text \<open>
  What the specification calls a matching echo reply, for the request that the
  iteration starting with local variables \<open>v\<close> sends: an echo reply (ICMP type 0)
  carrying the identifier and the sequence number of that request. No function of the
  source computes this; it is used only to state what the source does not check.
\<close>

definition spec_matching_reply :: "int \<Rightarrow> pingICMP_vars \<Rightarrow> datagram \<Rightarrow> bool" where
  "spec_matching_reply pid v d \<longleftrightarrow>
     well_formed d \<and> icmp_type d = 0 \<and> echo_id d = pid AND 0xffff \<and> echo_seq d = seq v"

text \<open>An ICMP destination-unreachable message (type 3), which is no echo reply.\<close>

definition unreachable_msg :: datagram where
  "unreachable_msg = \<lparr>well_formed = True, icmp_type = 3, echo_id = 0, echo_seq = 0\<rparr>"

section \<open>The shared slice of records and its readers\<close>

text \<open>
  \<^verbatim>\<open>main\<close> allocates one \<^verbatim>\<open>HostStats\<close> per configured host and keeps the pointers in
  the slice \<^verbatim>\<open>allStats\<close>, which it hands to the display and to \<^verbatim>\<open>saveLog\<close>; each probe
  loop holds the pointer to its own record. The records are modelled as a heap, a list
  in which the record of the \<open>i\<close>-th configured host lives at address \<open>i\<close>, and the
  slice as the list of addresses, initially \<open>[0..<n]\<close>. A probe iteration of host \<open>i\<close>
  changes the heap at address \<open>i\<close> as \<open>pingTCP_iter\<close> or \<open>pingICMP_iter\<close> says.
\<close>

definition main_heap :: "Config \<Rightarrow> HostStats list" where
  "main_heap cfg = map new_HostStats (Hosts cfg)"

definition main_allStats :: "Config \<Rightarrow> nat list" where
  "main_allStats cfg = [0..<length (Hosts cfg)]"

text \<open>
  \<^verbatim>\<open>sort.Slice(stats, less)\<close> belongs to Go's standard library, not to this
  repository. For a slice of at most 12 elements it is (Go 1.19 and later,
  \<^verbatim>\<open>pdqsort_func\<close> in \<^verbatim>\<open>sort/zsortfunc.go\<close>) exactly
  \<^verbatim>\<open>
  func insertionSort_func(data lessSwap, a, b int) {
      for i := a + 1; i < b; i++ {
          for j := i; j > a && data.Less(j, j-1); j-- {
              data.Swap(j, j-1)
          }
      }
  }
  \<close>
  called with \<open>a = 0\<close> and \<open>b = len(stats)\<close>; \<^verbatim>\<open>Less\<close> and \<^verbatim>\<open>Swap\<close> work on the slice in
  place, by index. Longer slices take other paths of \<^verbatim>\<open>pdqsort_func\<close>, which are not
  modelled: for a slice of more than 12 elements \<open>sort_Slice\<close> gives \<open>None\<close>, which
  stands for a result the model does not determine, not for a failure of the program.
\<close>

definition Swap :: "'a list \<Rightarrow> nat \<Rightarrow> nat \<Rightarrow> 'a list" where
  "Swap xs i j = xs[i := xs ! j, j := xs ! i]"

fun insertionSort_inner ::
  "('a list \<Rightarrow> nat \<Rightarrow> nat \<Rightarrow> bool) \<Rightarrow> nat \<Rightarrow> nat \<Rightarrow> 'a list \<Rightarrow> 'a list" where
  "insertionSort_inner Less a j xs =
     (if a < j \<and> Less xs j (j - 1)
      then insertionSort_inner Less a (j - 1) (Swap xs j (j - 1))
      else xs)"

definition insertionSort_func ::
  "('a list \<Rightarrow> nat \<Rightarrow> nat \<Rightarrow> bool) \<Rightarrow> nat \<Rightarrow> nat \<Rightarrow> 'a list \<Rightarrow> 'a list" where
  "insertionSort_func Less a b xs = foldl (\<lambda>ys i. insertionSort_inner Less a i ys) xs [a + 1..<b]"

definition sort_Slice ::
  "('a list \<Rightarrow> nat \<Rightarrow> nat \<Rightarrow> bool) \<Rightarrow> 'a list \<Rightarrow> 'a list option" where
  "sort_Slice Less xs =
     (if length xs \<le> 12 then Some (insertionSort_func Less 0 (length xs) xs) else None)"

text \<open>
  One pass of the loop of \<^verbatim>\<open>displayLoop\<close> (main.go, lines 155-168): the slice is sorted
  in place with
  \<^verbatim>\<open>
  sort.Slice(stats, func(i, j int) bool {
      ...
      return stats[i].Latency < stats[j].Latency
  })
  \<close>
  and then one line is drawn per record, in slice order, from \<^verbatim>\<open>s.Host\<close>,
  \<^verbatim>\<open>s.Latency\<close> and \<^verbatim>\<open>s.PacketLoss\<close>. The result is the slice as the pass leaves it
  (the next pass starts from it) and the lines drawn, as triples rather than formatted
  text; it is \<open>None\<close> where \<open>sort_Slice\<close> is. The source takes the locks of the two
  records for each comparison and the lock of one record for each line, so a probe
  loop may write a record between two comparisons; the model reads every latency of a
  pass from one heap, that is, it describes the passes during which no record is
  written. Nothing is assigned to any field of a record, so no heap is returned.
\<close>

definition displayLoop_less :: "HostStats list \<Rightarrow> nat list \<Rightarrow> nat \<Rightarrow> nat \<Rightarrow> bool" where
  "displayLoop_less hp stats i j \<longleftrightarrow> Latency (hp ! (stats ! i)) < Latency (hp ! (stats ! j))"

definition displayLoop_tick ::
  "HostStats list \<Rightarrow> nat list \<Rightarrow> (nat list \<times> (string \<times> Duration \<times> real) list) option" where
  "displayLoop_tick hp stats =
     (case sort_Slice (displayLoop_less hp) stats of
        None \<Rightarrow> None
      | Some stats' \<Rightarrow>
          Some (stats', map (\<lambda>p. (Host (hp ! p), Latency (hp ! p), PacketLoss (hp ! p))) stats'))"

text \<open>
  One tick of \<^verbatim>\<open>displayGraph\<close> over the whole slice (main.go, lines 207-221): each
  record in slice order is trimmed and copied into a fresh row of \<^verbatim>\<open>plot.Data\<close>, and
  the legend gets the line \<^verbatim>\<open>"%d. %s\n"\<close> of \<open>i + 1\<close> and the host, kept here as a pair.
  The result is the heap after the tick, the rows and the legend.
\<close>

fun displayGraph_range ::
  "nat \<Rightarrow> nat list \<Rightarrow> HostStats list \<Rightarrow> HostStats list \<times> real list list \<times> (nat \<times> string) list" where
  "displayGraph_range i [] hp = (hp, [], [])"
| "displayGraph_range i (p # ps) hp =
     (let s = displayGraph_trim (hp ! p);
          r = displayGraph_range (i + 1) ps (hp[p := s])
      in (fst r, displayGraph_row s # fst (snd r), (i + 1, Host s) # snd (snd r)))"

definition displayGraph_tick ::
  "HostStats list \<Rightarrow> nat list \<Rightarrow> HostStats list \<times> real list list \<times> (nat \<times> string) list" where
  "displayGraph_tick hp stats = displayGraph_range 0 stats hp"

text \<open>
  \<^verbatim>\<open>saveLog\<close> (main.go, lines 231-248): if the log file cannot be created nothing is
  written; otherwise \<^verbatim>\<open>data[s.Host] = s.RTTs\<close> for each record in slice order, and the
  map is encoded. The result is the heap afterwards and the map, if any. The map holds
  the histories as values: that Go stores a slice header sharing the record's backing
  array, not a copy of the elements, is not represented.
\<close>

definition saveLog ::
  "bool \<Rightarrow> HostStats list \<Rightarrow> nat list \<Rightarrow> HostStats list \<times> (string \<rightharpoonup> Duration list) option" where
  "saveLog created hp stats =
     (if \<not> created then (hp, None)
      else (hp, Some (foldl (\<lambda>data p. data(Host (hp ! p) \<mapsto> RTTs (hp ! p))) Map.empty stats)))"

text \<open>
  Insertion from the right into a list held in reverse, and the sort it builds: what
  the inner and the outer loop of \<open>insertionSort_func\<close> compute, written on values.
\<close>

fun insert_rev :: "('a \<Rightarrow> int) \<Rightarrow> 'a \<Rightarrow> 'a list \<Rightarrow> 'a list" where
  "insert_rev f x [] = [x]"
| "insert_rev f x (y # ys) = (if f x < f y then y # insert_rev f x ys else x # y # ys)"

definition isort_rev :: "('a \<Rightarrow> int) \<Rightarrow> 'a list \<Rightarrow> 'a list" where
  "isort_rev f xs = foldl (\<lambda>acc x. insert_rev f x acc) [] xs"

text \<open>
  Two hosts of the README configuration in TCP mode. First \<open>8.8.8.8:53\<close> answers in
  20 ms and \<open>1.1.1.1:53\<close> in 10 ms; later \<open>8.8.8.8:53\<close> answers in 10 ms as well.
\<close>

definition two_hosts_cfg :: Config where
  "two_hosts_cfg = \<lparr>Hosts = [''8.8.8.8:53'', ''1.1.1.1:53''],
     Interval = 1000000000, Timeout = 2000000000, UseICMP = False\<rparr>"

definition heap_first :: "HostStats list" where
  "heap_first =
     [snd (pingTCP_run two_hosts_cfg ''8.8.8.8:53'' [Probe (DialOk 20000000 1000000000)]),
      snd (pingTCP_run two_hosts_cfg ''1.1.1.1:53'' [Probe (DialOk 10000000 1000000000)])]"

definition heap_second :: "HostStats list" where
  "heap_second =
     [snd (pingTCP_run two_hosts_cfg ''8.8.8.8:53''
        [Probe (DialOk 20000000 1000000000), Probe (DialOk 10000000 2000000000)]),
      snd (pingTCP_run two_hosts_cfg ''1.1.1.1:53'' [Probe (DialOk 10000000 1000000000)])]"

text \<open>A heap of one record that has seen 51 successful probes and no display tick.\<close>

definition heap_51 :: "HostStats list" where
  "heap_51 = [snd (pingTCP_run example_cfg ''8.8.8.8:53'' (tcp_successes (samples 51)))]"

section \<open>Basic facts\<close>

lemma host_run_Nil [simp]: "host_run iter [] st = st"
  by (simp add: host_run_def)

lemma host_run_Cons [simp]:
  "host_run iter (e # evs) st = host_run iter evs (host_step iter e st)"
  by (simp add: host_run_def)

lemma host_run_append:
  "host_run iter (evs @ evs') st = host_run iter evs' (host_run iter evs st)"
  by (simp add: host_run_def)

lemma host_run_invariant:
  assumes "P st" and "\<And>e st. P st \<Longrightarrow> P (host_step iter e st)"
  shows "P (host_run iter evs st)"
  using assms(1) by (induction evs arbitrary: st) (simp_all add: assms(2))


lemma displayGraph_trim_fields [simp]:
  "Host (displayGraph_trim s) = Host s"
  "Latency (displayGraph_trim s) = Latency s"
  "PacketLoss (displayGraph_trim s) = PacketLoss s"
  "Timestamps (displayGraph_trim s) = Timestamps s"
  by (simp_all add: displayGraph_trim_def)

lemma RTTs_displayGraph_trim:
  "RTTs (displayGraph_trim s) = drop (length (RTTs s) - 50) (RTTs s)"
  by (simp add: displayGraph_trim_def)

lemma pingTCP_iter_DialErr [simp]:
  "fst (pingTCP_iter cfg h DialErr (v, s)) = (v\<lparr>sent := sent v + 1\<rparr>, s)"
  by (simp add: pingTCP_iter_def)

lemma pingTCP_iter_DialOk [simp]:
  "fst (pingTCP_iter cfg h (DialOk rtt now) (v, s)) =
     (v\<lparr>sent := sent v + 1, received := received v + 1\<rparr>,
      s\<lparr>RTTs := RTTs s @ [rtt], Latency := rtt, Timestamps := Timestamps s @ [now],
        PacketLoss := real_of_int (sent v - received v) / real_of_int (sent v + 1) * 100\<rparr>)"
  by (simp add: pingTCP_iter_def)

lemma pingICMP_iter_WriteErr [simp]:
  "fst (pingICMP_iter cfg pid WriteErr (v, s)) = (v\<lparr>seq := seq v + 1, sent := sent v + 1\<rparr>, s)"
  by (simp add: pingICMP_iter_def)

lemma pingICMP_iter_ReadErr [simp]:
  "fst (pingICMP_iter cfg pid ReadErr (v, s)) = (v\<lparr>seq := seq v + 1, sent := sent v + 1\<rparr>, s)"
  by (simp add: pingICMP_iter_def)

lemma pingICMP_iter_ReadOk [simp]:
  "fst (pingICMP_iter cfg pid (ReadOk d rtt now) (v, s)) =
     (v\<lparr>seq := seq v + 1, sent := sent v + 1, received := received v + 1\<rparr>,
      s\<lparr>RTTs := RTTs s @ [rtt], Latency := rtt, Timestamps := Timestamps s @ [now],
        PacketLoss := real_of_int (sent v - received v) / real_of_int (sent v + 1) * 100\<rparr>)"
  by (simp add: pingICMP_iter_def)

text \<open>What the other versions of the ICMP loop do where main.go differs.\<close>

lemma ping_recomputes_PacketLoss_on_failed_read:
  "PacketLoss (snd (fst (ping_iter pid (Marshalled ReadErr) (v, s))))
     = real_of_int (sent v + 1 - received v) / real_of_int (sent v + 1) * 100"
  by (simp add: ping_iter_def)

lemma ping_records_no_sample_unless_echo_reply:
  "\<not> (well_formed d \<and> icmp_type d = 0) \<Longrightarrow>
   snd (fst (ping_iter pid (Marshalled (ReadOk d rtt now)) (v, s))) = s"
  by (auto simp add: ping_iter_def Let_def)

lemma pingICMP_part_002_sleeps_after_write_error:
  "last (snd (pingICMP_iter_part_002 cfg pid WriteErr (v, s))) = Sleep (Interval cfg)"
  by (simp add: pingICMP_iter_part_002_def)

section \<open>Packet loss\<close>

text \<open>
  C1. The claim: \<^verbatim>\<open>PacketLoss\<close> equals \<open>(sent - received) / sent * 100\<close> after every
  probe attempt, successful or not. The code recomputes it only inside
  \<^verbatim>\<open>if err == nil\<close>. At the first attempt of a fresh host, when that attempt fails,
  \<^verbatim>\<open>sent\<close> is 1 and \<^verbatim>\<open>received\<close> is 0, so the formula gives 100, while
  \<^verbatim>\<open>PacketLoss\<close> still holds its initial 0; this in both probe modes. From any state,
  a failed attempt leaves \<^verbatim>\<open>PacketLoss\<close> as it was. The loop \<^verbatim>\<open>ping\<close> of the earlier
  version stores 100 in the same situation.
\<close>

theorem PacketLoss_stale_after_failed_attempt:
  "sent (fst (fst (pingTCP_iter cfg h DialErr (pingTCP_vars0, new_HostStats h)))) = 1
   \<and> received (fst (fst (pingTCP_iter cfg h DialErr (pingTCP_vars0, new_HostStats h)))) = 0
   \<and> PacketLoss (snd (fst (pingTCP_iter cfg h DialErr (pingTCP_vars0, new_HostStats h)))) = 0
   \<and> sent (fst (fst (pingICMP_iter cfg pid ReadErr (pingICMP_vars0, new_HostStats h)))) = 1
   \<and> received (fst (fst (pingICMP_iter cfg pid ReadErr (pingICMP_vars0, new_HostStats h)))) = 0
   \<and> PacketLoss (snd (fst (pingICMP_iter cfg pid ReadErr (pingICMP_vars0, new_HostStats h)))) = 0
   \<and> real_of_int (1 - 0) / real_of_int 1 * 100 = (100 :: real)
   \<and> PacketLoss (snd (fst (pingTCP_iter cfg h DialErr (v, s)))) = PacketLoss s
   \<and> PacketLoss (snd (fst (pingICMP_iter cfg pid WriteErr (w, s)))) = PacketLoss s
   \<and> PacketLoss (snd (fst (pingICMP_iter cfg pid ReadErr (w, s)))) = PacketLoss s
   \<and> PacketLoss (snd (fst (ping_iter pid (Marshalled ReadErr)
         (pingICMP_vars0, new_HostStats h)))) = 100"
  by (simp add: pingTCP_iter_def pingICMP_iter_def ping_iter_def pingTCP_vars0_def
        pingICMP_vars0_def new_HostStats_def)

section \<open>Counters and loss percentage\<close>

lemma loss_bounds:
  assumes "0 \<le> r" and "r \<le> s" and "0 < s"
  shows "0 \<le> real_of_int (s - r) / real_of_int s * 100"
    and "real_of_int (s - r) / real_of_int s * 100 \<le> 100"
proof -
  from assms have "0 \<le> real_of_int (s - r)" and "real_of_int (s - r) \<le> real_of_int s"
    and "0 < real_of_int s"
    by simp_all
  then show "0 \<le> real_of_int (s - r) / real_of_int s * 100"
    and "real_of_int (s - r) / real_of_int s * 100 \<le> 100"
    by (simp_all add: divide_le_eq)
qed

lemma pingTCP_step_counters_ok:
  assumes "counters_ok st"
  shows "counters_ok (host_step (pingTCP_iter cfg h) e st)"
proof (cases st)
  case (Pair v s)
  with assms have *: "0 \<le> received v" "received v \<le> sent v" "0 \<le> PacketLoss s" "PacketLoss s \<le> 100"
    by (simp_all add: counters_ok_def)
  show ?thesis
  proof (cases e)
    case GraphTick
    with Pair * show ?thesis by (simp add: counters_ok_def)
  next
    case (Probe oc)
    show ?thesis
    proof (cases oc)
      case DialErr
      with Probe Pair * show ?thesis by (simp add: counters_ok_def)
    next
      case (DialOk rtt now)
      with Probe Pair * loss_bounds [of "received v + 1" "sent v + 1"]
      show ?thesis by (simp add: counters_ok_def)
    qed
  qed
qed

lemma pingICMP_step_counters_ok:
  assumes "counters_ok st"
  shows "counters_ok (host_step (pingICMP_iter cfg pid) e st)"
proof (cases st)
  case (Pair v s)
  with assms have *: "0 \<le> received v" "received v \<le> sent v" "0 \<le> PacketLoss s" "PacketLoss s \<le> 100"
    by (simp_all add: counters_ok_def)
  show ?thesis
  proof (cases e)
    case GraphTick
    with Pair * show ?thesis by (simp add: counters_ok_def)
  next
    case (Probe oc)
    show ?thesis
    proof (cases oc)
      case (ReadOk d rtt now)
      with Probe Pair * loss_bounds [of "received v + 1" "sent v + 1"]
      show ?thesis by (simp add: counters_ok_def)
    qed (use Probe Pair * in \<open>simp_all add: counters_ok_def\<close>)
  qed
qed

lemma pingTCP_run_counters_ok: "counters_ok (pingTCP_run cfg h evs)"
  unfolding pingTCP_run_def
proof (rule host_run_invariant)
  show "counters_ok (pingTCP_vars0, new_HostStats h)"
    by (simp add: counters_ok_def pingTCP_vars0_def new_HostStats_def)
qed (rule pingTCP_step_counters_ok)

lemma pingICMP_run_counters_ok: "counters_ok (pingICMP_run cfg pid h evs)"
  unfolding pingICMP_run_def
proof (rule host_run_invariant)
  show "counters_ok (pingICMP_vars0, new_HostStats h)"
    by (simp add: counters_ok_def pingICMP_vars0_def new_HostStats_def)
qed (rule pingICMP_step_counters_ok)






lemma pingTCP_sent_le_length:
  "sent (fst (host_run (pingTCP_iter cfg h) evs st)) \<le> sent (fst st) + int (length evs)"
proof (induction evs arbitrary: st)
  case Nil
  show ?case by simp
next
  case (Cons e evs)
  have "sent (fst (host_step (pingTCP_iter cfg h) e st)) \<le> sent (fst st) + 1"
  proof (cases st)
    case (Pair v s)
    show ?thesis
    proof (cases e)
      case (Probe oc)
      with Pair show ?thesis by (cases oc) simp_all
    qed (simp add: Pair)
  qed
  with Cons.IH [of "host_step (pingTCP_iter cfg h) e st"] show ?case by simp
qed

lemma pingICMP_sent_le_length:
  "sent (fst (host_run (pingICMP_iter cfg pid) evs st)) \<le> sent (fst st) + int (length evs)"
proof (induction evs arbitrary: st)
  case Nil
  show ?case by simp
next
  case (Cons e evs)
  have "sent (fst (host_step (pingICMP_iter cfg pid) e st)) \<le> sent (fst st) + 1"
  proof (cases st)
    case (Pair v s)
    show ?thesis
    proof (cases e)
      case (Probe oc)
      with Pair show ?thesis by (cases oc) simp_all
    qed (simp add: Pair)
  qed
  with Cons.IH [of "host_step (pingICMP_iter cfg pid) e st"] show ?case by simp
qed

text \<open>
  The unbounded counters of the model agree with the 64-bit counters of the program on
  every run of fewer than \<open>2 ^ 63\<close> events: they never leave the range of a Go
  \<^verbatim>\<open>int\<close>, so no increment wraps around.
\<close>

lemma counters_fit_int64:
  assumes "length evs < 2 ^ 63" and "length ivs < 2 ^ 63"
  shows "0 \<le> received (fst (pingTCP_run cfg h evs))"
    and "received (fst (pingTCP_run cfg h evs)) \<le> sent (fst (pingTCP_run cfg h evs))"
    and "sent (fst (pingTCP_run cfg h evs)) < 2 ^ 63"
    and "0 \<le> received (fst (pingICMP_run cfg pid h ivs))"
    and "received (fst (pingICMP_run cfg pid h ivs)) \<le> sent (fst (pingICMP_run cfg pid h ivs))"
    and "sent (fst (pingICMP_run cfg pid h ivs)) < 2 ^ 63"
proof -
  have "sent (fst (pingTCP_run cfg h evs)) \<le> int (length evs)"
    using pingTCP_sent_le_length [of cfg h evs "(pingTCP_vars0, new_HostStats h)"]
    by (simp add: pingTCP_run_def pingTCP_vars0_def)
  moreover have "int (length evs) < 2 ^ 63"
    using assms(1) by (simp flip: of_nat_less_iff)
  ultimately show "sent (fst (pingTCP_run cfg h evs)) < 2 ^ 63" by simp
  have "sent (fst (pingICMP_run cfg pid h ivs)) \<le> int (length ivs)"
    using pingICMP_sent_le_length [of cfg pid ivs "(pingICMP_vars0, new_HostStats h)"]
    by (simp add: pingICMP_run_def pingICMP_vars0_def)
  moreover have "int (length ivs) < 2 ^ 63"
    using assms(2) by (simp flip: of_nat_less_iff)
  ultimately show "sent (fst (pingICMP_run cfg pid h ivs)) < 2 ^ 63" by simp
  show "0 \<le> received (fst (pingTCP_run cfg h evs))"
    and "received (fst (pingTCP_run cfg h evs)) \<le> sent (fst (pingTCP_run cfg h evs))"
    using pingTCP_run_counters_ok [of cfg h evs] by (simp_all add: counters_ok_def)
  show "0 \<le> received (fst (pingICMP_run cfg pid h ivs))"
    and "received (fst (pingICMP_run cfg pid h ivs)) \<le> sent (fst (pingICMP_run cfg pid h ivs))"
    using pingICMP_run_counters_ok [of cfg pid h ivs] by (simp_all add: counters_ok_def)
qed

section \<open>Current latency\<close>


section \<open>Sample history\<close>

lemma tcp_successes_run:
  "RTTs (snd (host_run (pingTCP_iter cfg h) (tcp_successes ps) st)) = RTTs (snd st) @ map fst ps
   \<and> Timestamps (snd (host_run (pingTCP_iter cfg h) (tcp_successes ps) st))
       = Timestamps (snd st) @ map snd ps"
proof (induction ps arbitrary: st)
  case Nil
  show ?case by (simp add: tcp_successes_def)
next
  case (Cons p ps)
  obtain v s where st: "st = (v, s)" by (cases st)
  from Cons.IH [of "fst (pingTCP_iter cfg h (DialOk (fst p) (snd p)) (v, s))"]
  show ?case by (simp add: tcp_successes_def st)
qed

lemma tcp_successes_then_tick:
  "RTTs (snd (pingTCP_run cfg h (tcp_successes ps @ [GraphTick])))
     = drop (length ps - 50) (map fst ps)"
  using tcp_successes_run [of cfg h ps "(pingTCP_vars0, new_HostStats h)"]
  by (simp add: pingTCP_run_def host_run_append RTTs_displayGraph_trim new_HostStats_def)

lemma tcp_step_Timestamps:
  "Timestamps (snd (host_step (pingTCP_iter cfg h) e st))
     = Timestamps (snd st) @ tcp_success_times [e]"
proof (cases st)
  case (Pair v s)
  show ?thesis
  proof (cases e)
    case (Probe oc)
    with Pair show ?thesis by (cases oc) simp_all
  qed (simp add: Pair)
qed

lemma tcp_success_times_Cons:
  "tcp_success_times (e # evs) = tcp_success_times [e] @ tcp_success_times evs"
proof (cases e)
  case (Probe oc)
  then show ?thesis by (cases oc) simp_all
qed simp

lemma tcp_run_Timestamps:
  "Timestamps (snd (host_run (pingTCP_iter cfg h) evs st))
     = Timestamps (snd st) @ tcp_success_times evs"
proof (induction evs arbitrary: st)
  case Nil
  show ?case by simp
next
  case (Cons e evs)
  have "Timestamps (snd (host_run (pingTCP_iter cfg h) (e # evs) st))
      = Timestamps (snd (host_step (pingTCP_iter cfg h) e st)) @ tcp_success_times evs"
    using Cons.IH [of "host_step (pingTCP_iter cfg h) e st"] by simp
  also have "\<dots> = Timestamps (snd st) @ tcp_success_times [e] @ tcp_success_times evs"
    by (simp only: tcp_step_Timestamps append_assoc)
  finally show ?case
    by (simp only: tcp_success_times_Cons [of e evs])
qed

lemma icmp_step_Timestamps:
  "Timestamps (snd (host_step (pingICMP_iter cfg pid) e st))
     = Timestamps (snd st) @ icmp_success_times [e]"
proof (cases st)
  case (Pair v s)
  show ?thesis
  proof (cases e)
    case (Probe oc)
    with Pair show ?thesis by (cases oc) simp_all
  qed (simp add: Pair)
qed

lemma icmp_success_times_Cons:
  "icmp_success_times (e # evs) = icmp_success_times [e] @ icmp_success_times evs"
proof (cases e)
  case (Probe oc)
  then show ?thesis by (cases oc) simp_all
qed simp

lemma icmp_run_Timestamps:
  "Timestamps (snd (host_run (pingICMP_iter cfg pid) evs st))
     = Timestamps (snd st) @ icmp_success_times evs"
proof (induction evs arbitrary: st)
  case Nil
  show ?case by simp
next
  case (Cons e evs)
  have "Timestamps (snd (host_run (pingICMP_iter cfg pid) (e # evs) st))
      = Timestamps (snd (host_step (pingICMP_iter cfg pid) e st)) @ icmp_success_times evs"
    using Cons.IH [of "host_step (pingICMP_iter cfg pid) e st"] by simp
  also have "\<dots> = Timestamps (snd st) @ icmp_success_times [e] @ icmp_success_times evs"
    by (simp only: icmp_step_Timestamps append_assoc)
  finally show ?case
    by (simp only: icmp_success_times_Cons [of e evs])
qed

lemma length_samples [simp]: "length (samples n) = n"
  by (simp add: samples_def)

lemma tick_after_each_Cons:
  "tick_after_each (e # evs) = e # GraphTick # tick_after_each evs"
  by (simp add: tick_after_each_def)

lemma tcp_successes_ticked_run:
  "RTTs (snd (host_run (pingTCP_iter cfg h) (tick_after_each (tcp_successes ps)) st))
     = (if ps = [] then RTTs (snd st)
        else drop (length (RTTs (snd st)) + length ps - 50) (RTTs (snd st) @ map fst ps))"
proof (induction ps arbitrary: st)
  case Nil
  show ?case by (simp add: tcp_successes_def tick_after_each_def)
next
  case (Cons p ps)
  obtain v s where st: "st = (v, s)" by (cases st)
  let ?st = "host_step (pingTCP_iter cfg h) GraphTick
               (host_step (pingTCP_iter cfg h) (Probe (DialOk (fst p) (snd p))) st)"
  have R: "RTTs (snd ?st) = drop (Suc (length (RTTs s)) - 50) (RTTs s @ [fst p])"
    by (simp add: st RTTs_displayGraph_trim)
  have run: "host_run (pingTCP_iter cfg h) (tick_after_each (tcp_successes (p # ps))) st
      = host_run (pingTCP_iter cfg h) (tick_after_each (tcp_successes ps)) ?st"
    by (simp add: tcp_successes_def tick_after_each_Cons)
  show ?case
  proof (cases "ps = []")
    case True
    then show ?thesis
      unfolding run Cons.IH R by (simp add: st)
  next
    case False
    then have k: "0 < length ps" by simp
    show ?thesis
    proof (cases "Suc (length (RTTs s)) \<le> 50")
      case True
      with False show ?thesis
        unfolding run Cons.IH R by (simp add: st)
    next
      case False
      then have "Suc (length (RTTs s)) - 50 \<le> length (RTTs s @ [fst p])" by simp
      with False k \<open>ps \<noteq> []\<close> show ?thesis
        unfolding run Cons.IH R by (simp add: st add.commute)
    qed
  qed
qed

text \<open>
  C2, as stated, fails: the probe loop appends and never evicts. After 60 consecutive
  successful probes of the first host of the README configuration \<^verbatim>\<open>RTTs\<close> holds 60
  entries when no display tick came in between; and when a tick of the graph display
  followed every one of the first 59 probes it still holds 51 entries right after the
  60th, not at most 50.
\<close>

theorem history_exceeds_50_counterexample:
  "\<not> length (RTTs (snd (pingTCP_run example_cfg ''8.8.8.8:53'' (tcp_successes (samples 60))))) \<le> 50
   \<and> \<not> length (RTTs (snd (pingTCP_run example_cfg ''8.8.8.8:53''
          (tick_after_each (tcp_successes (samples 59))
             @ [Probe (DialOk 60000000 60000000000)])))) \<le> 50"
proof -
  have a: "length (RTTs (snd (pingTCP_run example_cfg ''8.8.8.8:53'' (tcp_successes (samples 60)))))
      = 60"
    using tcp_successes_run [of example_cfg "''8.8.8.8:53''" "samples 60"
        "(pingTCP_vars0, new_HostStats ''8.8.8.8:53'')"]
    by (simp add: pingTCP_run_def new_HostStats_def)
  have ne: "samples 59 \<noteq> []"
    using length_samples [of 59] by (auto simp del: length_samples)
  have "length (RTTs (snd (host_run (pingTCP_iter example_cfg ''8.8.8.8:53'')
          (tick_after_each (tcp_successes (samples 59)))
          (pingTCP_vars0, new_HostStats ''8.8.8.8:53'')))) = 50"
    by (simp add: tcp_successes_ticked_run ne new_HostStats_def)
  then have b: "length (RTTs (snd (pingTCP_run example_cfg ''8.8.8.8:53''
          (tick_after_each (tcp_successes (samples 59))
             @ [Probe (DialOk 60000000 60000000000)])))) = 51"
    by (cases "host_run (pingTCP_iter example_cfg ''8.8.8.8:53'')
          (tick_after_each (tcp_successes (samples 59)))
          (pingTCP_vars0, new_HostStats ''8.8.8.8:53'')")
       (simp add: pingTCP_run_def host_run_append)
  from a b show ?thesis by simp
qed

text \<open>
  C2, amended. The cap is enforced by the graph display, not by the probe loop.
  A successful probe appends its rtt at the end of \<^verbatim>\<open>RTTs\<close> and evicts nothing.
  A tick of \<^verbatim>\<open>displayGraph\<close> cuts \<^verbatim>\<open>RTTs\<close> down to its most recent 50 entries, oldest
  dropped first and order kept, so right after every tick \<^verbatim>\<open>RTTs\<close> holds at most 50
  entries. After consecutive successes followed by a tick, \<^verbatim>\<open>RTTs\<close> holds the last 50
  of their rtts; after 60, samples 11 through 60 in order. The statement is about
  \<^verbatim>\<open>RTTs\<close> only.
\<close>

theorem RTTs_cut_to_last_50_by_graph_tick:
  "length (RTTs (displayGraph_trim s)) \<le> 50
   \<and> RTTs (displayGraph_trim s) = drop (length (RTTs s) - 50) (RTTs s)
   \<and> RTTs (snd (fst (pingTCP_iter cfg h (DialOk rtt now) (v, s)))) = RTTs s @ [rtt]
   \<and> RTTs (snd (fst (pingICMP_iter cfg pid (ReadOk d rtt now) (w, s)))) = RTTs s @ [rtt]
   \<and> RTTs (snd (pingTCP_run cfg h (tcp_successes ps @ [GraphTick])))
       = drop (length ps - 50) (map fst ps)
   \<and> RTTs (snd (pingTCP_run cfg h (tcp_successes (samples 60) @ [GraphTick])))
       = map (\<lambda>i. int i * 1000000) [11..<61]"
proof -
  have "drop 10 (map fst (samples 60)) = map (\<lambda>i. int i * 1000000) [11..<61]"
    by (simp add: samples_def drop_map o_def)
  then show ?thesis
    by (simp add: tcp_successes_then_tick RTTs_displayGraph_trim)
qed

text \<open>
  C10. \<^verbatim>\<open>Timestamps\<close> only ever grows at its end. From any state of a host record and
  for any sequence of probe iterations and graph-display ticks, in either probe mode,
  the sequence afterwards is the sequence before followed by the instants of the
  successful probes, one entry each; so after \<open>n\<close> successful probes of a fresh record
  it holds exactly \<open>n\<close> entries, for every \<open>n\<close>. After 60 successes and a display tick,
  \<^verbatim>\<open>RTTs\<close> has 50 entries and \<^verbatim>\<open>Timestamps\<close> has 60.
\<close>

theorem Timestamps_append_only_and_longer_than_RTTs:
  "Timestamps (snd (host_run (pingTCP_iter cfg h) evs st))
     = Timestamps (snd st) @ tcp_success_times evs
   \<and> Timestamps (snd (host_run (pingICMP_iter cfg pid) ivs st'))
     = Timestamps (snd st') @ icmp_success_times ivs
   \<and> length (Timestamps (snd (pingTCP_run cfg h (tcp_successes ps)))) = length ps
   \<and> length (RTTs (snd (pingTCP_run cfg h (tcp_successes (samples 60) @ [GraphTick])))) = 50
   \<and> length (Timestamps (snd (pingTCP_run cfg h (tcp_successes (samples 60) @ [GraphTick])))) = 60"
proof -
  have "length (Timestamps (snd (pingTCP_run cfg h (tcp_successes ps)))) = length ps" for ps
    using tcp_successes_run [of cfg h ps "(pingTCP_vars0, new_HostStats h)"]
    by (simp add: pingTCP_run_def new_HostStats_def)
  moreover have "Timestamps (snd (pingTCP_run cfg h (evs @ [GraphTick])))
      = Timestamps (snd (pingTCP_run cfg h evs))" for evs
    by (simp add: pingTCP_run_def host_run_append)
  ultimately show ?thesis
    by (simp add: tcp_run_Timestamps icmp_run_Timestamps tcp_successes_then_tick)
qed

section \<open>What counts as a reply, and the pause between attempts\<close>

text \<open>
  C3. The ICMP loop counts an attempt as received whenever \<^verbatim>\<open>conn.ReadFrom\<close> returns
  without error, whatever was read. On a fresh host, when the datagram read is a
  destination-unreachable message, which is no echo reply at all, the attempt is
  counted as received, its rtt is appended to the history and becomes the current
  latency, and the loss is set to 0. The resulting state is the same for any two
  datagrams. The loop \<^verbatim>\<open>ping\<close> of the earlier version records no sample for such a
  datagram, though it too increments \<^verbatim>\<open>received\<close>.
\<close>

theorem pingICMP_counts_any_datagram_as_received:
  "\<not> spec_matching_reply pid pingICMP_vars0 unreachable_msg
   \<and> received (fst (fst (pingICMP_iter cfg pid (ReadOk unreachable_msg rtt now)
        (pingICMP_vars0, new_HostStats h)))) = 1
   \<and> RTTs (snd (fst (pingICMP_iter cfg pid (ReadOk unreachable_msg rtt now)
        (pingICMP_vars0, new_HostStats h)))) = [rtt]
   \<and> Latency (snd (fst (pingICMP_iter cfg pid (ReadOk unreachable_msg rtt now)
        (pingICMP_vars0, new_HostStats h)))) = rtt
   \<and> PacketLoss (snd (fst (pingICMP_iter cfg pid (ReadOk unreachable_msg rtt now)
        (pingICMP_vars0, new_HostStats h)))) = 0
   \<and> fst (pingICMP_iter cfg pid (ReadOk d rtt now) (v, s))
       = fst (pingICMP_iter cfg pid (ReadOk d' rtt now) (v, s))
   \<and> snd (fst (ping_iter pid (Marshalled (ReadOk unreachable_msg rtt now)) (v, s))) = s
   \<and> received (fst (fst (ping_iter pid (Marshalled (ReadOk unreachable_msg rtt now)) (v, s))))
       = received v + 1"
  by (simp add: spec_matching_reply_def unreachable_msg_def pingICMP_vars0_def new_HostStats_def
        ping_iter_def)

text \<open>
  C8. When \<^verbatim>\<open>conn.WriteTo\<close> fails, the ICMP loop of main.go goes on to its next
  iteration at once (\<^verbatim>\<open>continue\<close>): the only effect of the iteration is the write,
  and no sleep follows it. Every other iteration, of either loop, ends with
  \<^verbatim>\<open>time.Sleep(cfg.Interval)\<close>, and so does the send-error path of the same loop in
  the later version of the program.
\<close>

theorem pingICMP_write_error_skips_sleep:
  "snd (pingICMP_iter cfg pid WriteErr (v, s))
     = [WriteTo \<lparr>ID = pid AND 0xffff, Seq = seq v, Data = ''PING''\<rparr>]
   \<and> Sleep (Interval cfg) \<notin> set (snd (pingICMP_iter cfg pid WriteErr (v, s)))
   \<and> last (snd (pingICMP_iter cfg pid ReadErr (v, s))) = Sleep (Interval cfg)
   \<and> last (snd (pingICMP_iter cfg pid (ReadOk d rtt now) (v, s))) = Sleep (Interval cfg)
   \<and> last (snd (pingTCP_iter cfg h DialErr (w, s))) = Sleep (Interval cfg)
   \<and> last (snd (pingTCP_iter cfg h (DialOk rtt now) (w, s))) = Sleep (Interval cfg)
   \<and> last (snd (pingICMP_iter_part_002 cfg pid WriteErr (v, s))) = Sleep (Interval cfg)"
  by (simp add: pingICMP_iter_def pingTCP_iter_def pingICMP_iter_part_002_def)

section \<open>The table display: order of the lines\<close>

text \<open>The in-place insertion sort computes the stable sort of the slice by key.\<close>

declare insertionSort_inner.simps [simp del]

lemma length_insert_rev [simp]: "length (insert_rev f x ys) = Suc (length ys)"
  by (induction ys) simp_all

lemma isort_rev_snoc: "isort_rev f (xs @ [x]) = insert_rev f x (isort_rev f xs)"
  by (simp add: isort_rev_def)

lemma length_isort_rev [simp]: "length (isort_rev f xs) = length xs"
  by (induction xs rule: rev_induct) (simp_all add: isort_rev_snoc, simp add: isort_rev_def)

lemma insertionSort_inner_insert:
  "insertionSort_inner (\<lambda>xs i j. f (xs ! i) < f (xs ! j)) 0 (length as) (as @ x # zs)
     = rev (insert_rev f x (rev as)) @ zs"
proof (induction as arbitrary: zs rule: rev_induct)
  case Nil
  show ?case by (subst insertionSort_inner.simps) simp
next
  case (snoc y bs)
  have nth1: "((bs @ [y]) @ x # zs) ! length (bs @ [y]) = x"
    by (simp only: nth_append_length)
  have nth0: "((bs @ [y]) @ x # zs) ! (length (bs @ [y]) - 1) = y"
    by (simp add: nth_append)
  have sw: "Swap ((bs @ [y]) @ x # zs) (length (bs @ [y])) (length (bs @ [y]) - 1)
      = bs @ x # y # zs"
    unfolding Swap_def nth1 nth0
    by (simp add: list_update_append)
  show ?case
  proof (cases "f x < f y")
    case True
    then show ?thesis
      apply (subst insertionSort_inner.simps)
      apply (simp only: nth1 nth0 sw)
      apply (simp add: snoc.IH)
      done
  next
    case False
    then show ?thesis
      apply (subst insertionSort_inner.simps)
      apply (simp only: nth1 nth0 sw)
      apply simp
      done
  qed
qed


lemma insertionSort_prefix:
  assumes "k \<le> length xs"
  shows "foldl (\<lambda>ys i. insertionSort_inner (\<lambda>xs i j. f (xs ! i) < f (xs ! j)) 0 i ys) xs [1..<k]
           = rev (isort_rev f (take k xs)) @ drop k xs"
  using assms
proof (induction k)
  case 0
  show ?case by (simp add: isort_rev_def)
next
  case (Suc k)
  then have k: "k < length xs" by simp
  show ?case
  proof (cases "k = 0")
    case True
    with k show ?thesis
      by (cases xs) (simp_all add: isort_rev_def)
  next
    case False
    then have upt: "[1..<Suc k] = [1..<k] @ [k]" by simp
    let ?as = "rev (isort_rev f (take k xs))"
    have len: "length ?as = k" using k by simp
    have dr: "drop k xs = xs ! k # drop (Suc k) xs"
      using k by (simp add: Cons_nth_drop_Suc)
    have "foldl (\<lambda>ys i. insertionSort_inner (\<lambda>xs i j. f (xs ! i) < f (xs ! j)) 0 i ys) xs [1..<Suc k]
        = insertionSort_inner (\<lambda>xs i j. f (xs ! i) < f (xs ! j)) 0 k (?as @ xs ! k # drop (Suc k) xs)"
      using Suc.IH k by (simp only: upt foldl_append foldl.simps dr)
    also have "\<dots> = rev (insert_rev f (xs ! k) (rev ?as)) @ drop (Suc k) xs"
      using insertionSort_inner_insert [of f ?as "xs ! k" "drop (Suc k) xs"] len by simp
    also have "\<dots> = rev (isort_rev f (take (Suc k) xs)) @ drop (Suc k) xs"
      using k by (simp add: take_Suc_conv_app_nth isort_rev_snoc)
    finally show ?thesis .
  qed
qed

lemma sort_Slice_isort_rev:
  "length xs \<le> 12 \<Longrightarrow>
   sort_Slice (\<lambda>xs i j. f (xs ! i) < f (xs ! j)) xs = Some (rev (isort_rev f xs))"
  using insertionSort_prefix [of "length xs" xs f]
  by (simp add: sort_Slice_def insertionSort_func_def)

lemma mset_insert_rev [simp]: "mset (insert_rev f x ys) = add_mset x (mset ys)"
  by (induction ys) simp_all

lemma set_insert_rev [simp]: "set (insert_rev f x ys) = insert x (set ys)"
  by (induction ys) auto

lemma sorted_insert_rev:
  "sorted (rev (map f ys)) \<Longrightarrow> sorted (rev (map f (insert_rev f x ys)))"
  by (induction ys) (auto simp: sorted_append)

lemma filter_insert_rev:
  "filter (\<lambda>y. f y = k) (rev (insert_rev f x ys)) = filter (\<lambda>y. f y = k) (rev ys @ [x])"
  by (induction ys) auto

lemma mset_isort_rev [simp]: "mset (isort_rev f xs) = mset xs"
  by (induction xs rule: rev_induct) (simp_all add: isort_rev_snoc, simp add: isort_rev_def)

lemma sorted_isort_rev: "sorted (rev (map f (isort_rev f xs)))"
proof (induction xs rule: rev_induct)
  case Nil
  show ?case by (simp add: isort_rev_def)
next
  case (snoc x xs)
  then show ?case by (simp add: isort_rev_snoc sorted_insert_rev)
qed

lemma filter_isort_rev:
  "filter (\<lambda>y. f y = k) (rev (isort_rev f xs)) = filter (\<lambda>y. f y = k) xs"
proof (induction xs rule: rev_induct)
  case Nil
  show ?case by (simp add: isort_rev_def)
next
  case (snoc x xs)
  then show ?case by (simp add: isort_rev_snoc filter_insert_rev)
qed

lemma isort_rev_sort_key: "rev (isort_rev f xs) = sort_key f xs"
proof (rule sym, rule properties_for_sort_key)
  show "mset (rev (isort_rev f xs)) = mset xs" by simp
  show "sorted (map f (rev (isort_rev f xs)))"
    using sorted_isort_rev [of f xs] by (simp add: rev_map)
  fix k
  show "filter (\<lambda>x. f k = f x) (rev (isort_rev f xs)) = filter (\<lambda>x. f k = f x) xs"
    using filter_isort_rev [of f "f k" xs] by (simp add: eq_commute)
qed

lemma displayLoop_sort:
  assumes "length stats \<le> 12"
  shows "sort_Slice (displayLoop_less hp) stats = Some (sort_key (\<lambda>p. Latency (hp ! p)) stats)"
proof -
  have "displayLoop_less hp = (\<lambda>xs i j. Latency (hp ! (xs ! i)) < Latency (hp ! (xs ! j)))"
    by (intro ext) (simp add: displayLoop_less_def)
  then show ?thesis
    by (simp only: sort_Slice_isort_rev [OF assms, of "\<lambda>p. Latency (hp ! p)"] isort_rev_sort_key)
qed

lemma displayLoop_tick_small:
  assumes "length stats \<le> 12"
  shows "displayLoop_tick hp stats
     = Some (sort_key (\<lambda>p. Latency (hp ! p)) stats,
             map (\<lambda>p. (Host (hp ! p), Latency (hp ! p), PacketLoss (hp ! p)))
               (sort_key (\<lambda>p. Latency (hp ! p)) stats))"
  by (simp add: displayLoop_tick_def displayLoop_sort [OF assms])

lemma displayLoop_tick_long: "12 < length stats \<Longrightarrow> displayLoop_tick hp stats = None"
  by (simp add: displayLoop_tick_def sort_Slice_def)

text \<open>
  C4, as stated, fails. With the two hosts registered in the order \<open>8.8.8.8:53\<close>,
  \<open>1.1.1.1:53\<close>: the first pass of the table display, at latencies 20 ms and 10 ms,
  leaves the shared slice in the order \<open>1.1.1.1:53\<close>, \<open>8.8.8.8:53\<close>. By the second pass
  both latencies are 10 ms, and the lines come out in the order of the slice,
  \<open>1.1.1.1:53\<close> first: not the registration order, which a stable sort of the
  registration list would give.
\<close>

theorem equal_latency_not_in_registration_order_counterexample:
  "Hosts two_hosts_cfg = [''8.8.8.8:53'', ''1.1.1.1:53'']
   \<and> main_allStats two_hosts_cfg = [0, 1]
   \<and> displayLoop_tick heap_first (main_allStats two_hosts_cfg)
       = Some ([1, 0], [(''1.1.1.1:53'', 10000000, 0), (''8.8.8.8:53'', 20000000, 0)])
   \<and> Latency (heap_second ! 0) = Latency (heap_second ! 1)
   \<and> displayLoop_tick heap_second [1, 0]
       = Some ([1, 0], [(''1.1.1.1:53'', 10000000, 0), (''8.8.8.8:53'', 10000000, 0)])
   \<and> [1, 0] \<noteq> sort_key (\<lambda>p. Latency (heap_second ! p)) (main_allStats two_hosts_cfg)"
proof -
  have reg: "main_allStats two_hosts_cfg = [0, 1]"
    by (simp add: main_allStats_def two_hosts_cfg_def)
  have first: "heap_first
      = [\<lparr>Host = ''8.8.8.8:53'', Latency = 20000000, PacketLoss = 0,
           Timestamps = [1000000000], RTTs = [20000000]\<rparr>,
         \<lparr>Host = ''1.1.1.1:53'', Latency = 10000000, PacketLoss = 0,
           Timestamps = [1000000000], RTTs = [10000000]\<rparr>]"
    by (simp add: heap_first_def pingTCP_run_def new_HostStats_def pingTCP_vars0_def)
  have second: "heap_second
      = [\<lparr>Host = ''8.8.8.8:53'', Latency = 10000000, PacketLoss = 0,
           Timestamps = [1000000000, 2000000000], RTTs = [20000000, 10000000]\<rparr>,
         \<lparr>Host = ''1.1.1.1:53'', Latency = 10000000, PacketLoss = 0,
           Timestamps = [1000000000], RTTs = [10000000]\<rparr>]"
    by (simp add: heap_second_def pingTCP_run_def new_HostStats_def pingTCP_vars0_def)
  have pass1: "displayLoop_tick heap_first [0, 1]
      = Some ([1, 0], [(''1.1.1.1:53'', 10000000, 0), (''8.8.8.8:53'', 20000000, 0)])"
    using displayLoop_tick_small [of "[0, 1]" heap_first] by (simp add: first)
  have pass2: "displayLoop_tick heap_second [1, 0]
      = Some ([1, 0], [(''1.1.1.1:53'', 10000000, 0), (''8.8.8.8:53'', 10000000, 0)])"
    using displayLoop_tick_small [of "[1, 0]" heap_second] by (simp add: second)
  have ne: "[1, 0] \<noteq> sort_key (\<lambda>p. Latency (heap_second ! p)) [0, 1]"
    by (simp add: second)
  have eq: "Latency (heap_second ! 0) = Latency (heap_second ! 1)"
    by (simp add: second)
  from pass1 pass2 ne eq show ?thesis
    by (simp only: reg) (simp add: two_hosts_cfg_def)
qed

text \<open>
  C4, amended. For at most 12 host records, where \<^verbatim>\<open>sort.Slice\<close> is the insertion sort
  above, and for a pass during which no record is written: a pass of the table display
  leaves the slice as the stable sort, by \<^verbatim>\<open>Latency\<close> ascending, of the slice as the
  pass found it, and draws its lines in that order. The latencies of the lines ascend,
  no record is lost or repeated, and records of equal latency keep the relative order
  they had in the slice before the pass. At the first pass, which finds the slice as
  \<^verbatim>\<open>main\<close> built it, records of equal latency therefore come in registration order
  (ascending address); a later pass finds the order the previous pass left, which need
  not be the registration order. Nothing is stated for more than 12 records.
\<close>

theorem displayLoop_sorted_ties_in_slice_order:
  assumes "length stats \<le> 12" and "length (Hosts cfg) \<le> 12"
  shows "(\<exists>stats' lines.
            displayLoop_tick hp stats = Some (stats', lines)
          \<and> stats' = sort_key (\<lambda>p. Latency (hp ! p)) stats
          \<and> sorted (map (\<lambda>p. Latency (hp ! p)) stats')
          \<and> mset stats' = mset stats
          \<and> (\<forall>k. filter (\<lambda>p. Latency (hp ! p) = k) stats'
                 = filter (\<lambda>p. Latency (hp ! p) = k) stats)
          \<and> lines = map (\<lambda>p. (Host (hp ! p), Latency (hp ! p), PacketLoss (hp ! p))) stats'
          \<and> sorted (map (\<lambda>l. fst (snd l)) lines))
       \<and> (\<exists>first lines.
            displayLoop_tick hp (main_allStats cfg) = Some (first, lines)
          \<and> first = sort_key (\<lambda>p. Latency (hp ! p)) [0..<length (Hosts cfg)]
          \<and> (\<forall>k. filter (\<lambda>p. Latency (hp ! p) = k) first
                 = filter (\<lambda>p. Latency (hp ! p) = k) [0..<length (Hosts cfg)])
          \<and> (\<forall>k. sorted (filter (\<lambda>p. Latency (hp ! p) = k) first)))"
proof -
  let ?L = "\<lambda>p. Latency (hp ! p)"
  have stable: "filter (\<lambda>p. ?L p = k) (sort_key ?L xs) = filter (\<lambda>p. ?L p = k) xs" for k xs
    by (rule sort_key_stable)
  have lines: "map (\<lambda>l. fst (snd l)) (map (\<lambda>p. (Host (hp ! p), ?L p, PacketLoss (hp ! p))) xs)
      = map ?L xs" for xs
    by simp
  have upt: "sorted (filter (\<lambda>p. ?L p = k) [0..<n])" for k n
    by (rule sorted_wrt_filter) simp
  have len: "length (main_allStats cfg) \<le> 12"
    using assms(2) by (simp add: main_allStats_def)
  have one: "\<exists>stats' lines.
            displayLoop_tick hp stats = Some (stats', lines)
          \<and> stats' = sort_key ?L stats
          \<and> sorted (map ?L stats')
          \<and> mset stats' = mset stats
          \<and> (\<forall>k. filter (\<lambda>p. ?L p = k) stats' = filter (\<lambda>p. ?L p = k) stats)
          \<and> lines = map (\<lambda>p. (Host (hp ! p), ?L p, PacketLoss (hp ! p))) stats'
          \<and> sorted (map (\<lambda>l. fst (snd l)) lines)"
    unfolding displayLoop_tick_small [OF assms(1)]
    by (simp add: stable o_def)
  have two: "\<exists>first lines.
            displayLoop_tick hp (main_allStats cfg) = Some (first, lines)
          \<and> first = sort_key ?L [0..<length (Hosts cfg)]
          \<and> (\<forall>k. filter (\<lambda>p. ?L p = k) first = filter (\<lambda>p. ?L p = k) [0..<length (Hosts cfg)])
          \<and> (\<forall>k. sorted (filter (\<lambda>p. ?L p = k) first))"
    unfolding displayLoop_tick_small [OF len]
    by (simp add: stable main_allStats_def upt)
  from one two show ?thesis by (rule conjI)
qed

theorem displayLoop_sorted_ties_in_slice_order_witness:
  "length [1, 0 :: nat] \<le> 12 \<and> length (Hosts two_hosts_cfg) \<le> 12
   \<and> displayLoop_tick heap_second [1, 0]
       = Some ([1, 0], [(''1.1.1.1:53'', 10000000, 0), (''8.8.8.8:53'', 10000000, 0)])
   \<and> map_option fst (displayLoop_tick heap_second (main_allStats two_hosts_cfg)) = Some [0, 1]"
proof -
  have h: "length [1, 0 :: nat] \<le> 12" by simp
  have c: "length (Hosts two_hosts_cfg) \<le> 12" by (simp add: two_hosts_cfg_def)
  have l: "Latency (heap_second ! 0) = 10000000" "Latency (heap_second ! Suc 0) = 10000000"
    "PacketLoss (heap_second ! 0) = 0" "PacketLoss (heap_second ! Suc 0) = 0"
    "Host (heap_second ! 0) = ''8.8.8.8:53''" "Host (heap_second ! Suc 0) = ''1.1.1.1:53''"
    by (simp_all add: heap_second_def pingTCP_run_def new_HostStats_def pingTCP_vars0_def)
  have reg: "main_allStats two_hosts_cfg = [0, 1]"
    by (simp add: main_allStats_def two_hosts_cfg_def)
  have s1: "sort_key (\<lambda>p. Latency (heap_second ! p)) [1, 0] = [1, 0]"
    and s2: "sort_key (\<lambda>p. Latency (heap_second ! p)) [0 ..< length (Hosts two_hosts_cfg)] = [0, 1]"
    by (simp_all add: l two_hosts_cfg_def)
  from displayLoop_sorted_ties_in_slice_order [OF h c, of heap_second]
  obtain stats' lines first lines'
    where "displayLoop_tick heap_second [1, 0] = Some (stats', lines)"
      and "stats' = sort_key (\<lambda>p. Latency (heap_second ! p)) [1, 0]"
      and "lines = map (\<lambda>p. (Host (heap_second ! p), Latency (heap_second ! p),
                               PacketLoss (heap_second ! p))) stats'"
      and "displayLoop_tick heap_second (main_allStats two_hosts_cfg) = Some (first, lines')"
      and "first = sort_key (\<lambda>p. Latency (heap_second ! p)) [0 ..< length (Hosts two_hosts_cfg)]"
    by blast
  then have "displayLoop_tick heap_second [1, 0]
      = Some ([1, 0], [(''1.1.1.1:53'', 10000000, 0), (''8.8.8.8:53'', 10000000, 0)])"
    and "map_option fst (displayLoop_tick heap_second (main_allStats two_hosts_cfg)) = Some [0, 1]"
    by (simp_all add: s1 s2 l)
  with h c show ?thesis by simp
qed

section \<open>The readers and the records\<close>

lemma displayGraph_trim_idem [simp]:
  "displayGraph_trim (displayGraph_trim s) = displayGraph_trim s"
  by (simp add: displayGraph_trim_def)

lemma length_displayGraph_range [simp]:
  "length (fst (displayGraph_range i ps hp)) = length hp"
  by (induction ps arbitrary: i hp) (simp_all add: Let_def)

lemma displayGraph_range_nth:
  "a < length hp \<Longrightarrow>
   fst (displayGraph_range i ps hp) ! a = (if a \<in> set ps then displayGraph_trim (hp ! a) else hp ! a)"
proof (induction ps arbitrary: i hp)
  case Nil
  show ?case by simp
next
  case (Cons p ps)
  let ?hp = "hp[p := displayGraph_trim (hp ! p)]"
  have "fst (displayGraph_range i (p # ps) hp) ! a = fst (displayGraph_range (i + 1) ps ?hp) ! a"
    by (simp add: Let_def)
  also have "\<dots> = (if a \<in> set ps then displayGraph_trim (?hp ! a) else ?hp ! a)"
    using Cons.prems by (intro Cons.IH) simp
  also have "\<dots> = (if a \<in> set (p # ps) then displayGraph_trim (hp ! a) else hp ! a)"
    using Cons.prems by (cases "a = p") simp_all
  finally show ?case .
qed

lemma displayGraph_range_rows:
  assumes "\<And>q. displayGraph_trim (h ! q) = displayGraph_trim (hp ! q)"
  shows "fst (snd (displayGraph_range i ps h)) = map (\<lambda>p. displayGraph_row (displayGraph_trim (hp ! p))) ps"
  using assms
proof (induction ps arbitrary: i h)
  case Nil
  show ?case by simp
next
  case (Cons p ps)
  have "displayGraph_trim (h[p := displayGraph_trim (h ! p)] ! q) = displayGraph_trim (hp ! q)" for q
  proof (cases "q = p \<and> p < length h")
    case True
    then show ?thesis using Cons.prems [of p] by simp
  next
    case False
    then have "h[p := displayGraph_trim (h ! p)] ! q = h ! q"
      by (cases "q = p") (simp_all add: list_update_beyond)
    then show ?thesis using Cons.prems [of q] by simp
  qed
  from Cons.IH [OF this] Cons.prems [of p] show ?case
    by (simp add: Let_def)
qed

lemma displayGraph_range_legend:
  assumes "\<And>q. Host (h ! q) = Host (hp ! q)"
  shows "snd (snd (displayGraph_range i ps h))
           = map (\<lambda>kp. (fst kp + 1, Host (hp ! snd kp))) (enumerate i ps)"
  using assms
proof (induction ps arbitrary: i h)
  case Nil
  show ?case by simp
next
  case (Cons p ps)
  have "Host (h[p := displayGraph_trim (h ! p)] ! q) = Host (hp ! q)" for q
  proof (cases "q = p \<and> p < length h")
    case True
    then show ?thesis using Cons.prems [of p] by simp
  next
    case False
    then have "h[p := displayGraph_trim (h ! p)] ! q = h ! q"
      by (cases "q = p") (simp_all add: list_update_beyond)
    then show ?thesis using Cons.prems [of q] by simp
  qed
  from Cons.IH [OF this, of "i + 1"] Cons.prems [of p] show ?case
    by (simp add: Let_def)
qed

lemma displayGraph_tick_field:
  assumes "\<And>s. g (displayGraph_trim s) = g s"
  shows "map g (fst (displayGraph_tick hp stats)) = map g hp"
  by (rule nth_equalityI) (simp_all add: displayGraph_tick_def displayGraph_range_nth assms)

lemma displayGraph_tick_RTTs:
  "map RTTs (fst (displayGraph_tick hp stats))
     = map (\<lambda>a. if a \<in> set stats then drop (length (RTTs (hp ! a)) - 50) (RTTs (hp ! a))
                 else RTTs (hp ! a)) [0..<length hp]"
  by (rule nth_equalityI)
     (simp_all add: displayGraph_tick_def displayGraph_range_nth RTTs_displayGraph_trim)

text \<open>
  C5, as stated, fails: the graph display is a reader that changes the record it
  reads. On a record holding 51 samples, one tick leaves it with 50.
\<close>

theorem displayGraph_changes_record_counterexample:
  "fst (displayGraph_tick heap_51 [0]) \<noteq> heap_51
   \<and> length (RTTs (heap_51 ! 0)) = 51
   \<and> length (RTTs (fst (displayGraph_tick heap_51 [0]) ! 0)) = 50"
proof -
  have r: "RTTs (heap_51 ! 0) = map fst (samples 51)"
    using tcp_successes_run [of example_cfg "''8.8.8.8:53''" "samples 51"
      "(pingTCP_vars0, new_HostStats ''8.8.8.8:53'')"]
    by (simp add: heap_51_def pingTCP_run_def new_HostStats_def)
  have t: "fst (displayGraph_tick heap_51 [0]) ! 0 = displayGraph_trim (heap_51 ! 0)"
    using displayGraph_range_nth [of 0 heap_51 0 "[0]"]
    by (simp add: displayGraph_tick_def heap_51_def)
  have l: "length (RTTs (fst (displayGraph_tick heap_51 [0]) ! 0)) = 50"
    by (simp add: t RTTs_displayGraph_trim r)
  moreover have "length (RTTs (heap_51 ! 0)) = 51" by (simp add: r)
  ultimately show ?thesis by auto
qed

text \<open>
  C5, amended. A tick of the graph display changes, of the records, nothing but
  \<^verbatim>\<open>RTTs\<close>: the heap keeps its size, \<^verbatim>\<open>Host\<close>, \<^verbatim>\<open>Latency\<close>, \<^verbatim>\<open>PacketLoss\<close> and
  \<^verbatim>\<open>Timestamps\<close> of every record stay as they were, and \<^verbatim>\<open>RTTs\<close> of each record in the
  slice is cut to its last 50 entries. What the tick hands to the renderer is computed
  from the records as they are at the tick: one fresh row per record of the slice, the
  milliseconds of its trimmed history, and one numbered legend line per host.
  \<^verbatim>\<open>saveLog\<close> leaves the heap as it found it.
\<close>

theorem displayGraph_changes_only_RTTs_and_saveLog_nothing:
  "length (fst (displayGraph_tick hp stats)) = length hp
   \<and> map Host (fst (displayGraph_tick hp stats)) = map Host hp
   \<and> map Latency (fst (displayGraph_tick hp stats)) = map Latency hp
   \<and> map PacketLoss (fst (displayGraph_tick hp stats)) = map PacketLoss hp
   \<and> map Timestamps (fst (displayGraph_tick hp stats)) = map Timestamps hp
   \<and> map RTTs (fst (displayGraph_tick hp stats))
       = map (\<lambda>a. if a \<in> set stats then drop (length (RTTs (hp ! a)) - 50) (RTTs (hp ! a))
                   else RTTs (hp ! a)) [0..<length hp]
   \<and> fst (snd (displayGraph_tick hp stats))
       = map (\<lambda>p. map (\<lambda>d. real_of_int (Milliseconds d))
                     (drop (length (RTTs (hp ! p)) - 50) (RTTs (hp ! p)))) stats
   \<and> snd (snd (displayGraph_tick hp stats))
       = map (\<lambda>kp. (fst kp + 1, Host (hp ! snd kp))) (enumerate 0 stats)
   \<and> fst (saveLog created hp stats) = hp"
proof -
  have rows: "fst (snd (displayGraph_tick hp stats))
      = map (\<lambda>p. displayGraph_row (displayGraph_trim (hp ! p))) stats"
    unfolding displayGraph_tick_def by (rule displayGraph_range_rows) simp
  have legend: "snd (snd (displayGraph_tick hp stats))
      = map (\<lambda>kp. (fst kp + 1, Host (hp ! snd kp))) (enumerate 0 stats)"
    unfolding displayGraph_tick_def by (rule displayGraph_range_legend) simp
  have "length (fst (displayGraph_tick hp stats)) = length hp"
    by (simp add: displayGraph_tick_def)
  moreover have "map Host (fst (displayGraph_tick hp stats)) = map Host hp"
    by (rule displayGraph_tick_field) simp
  moreover have "map Latency (fst (displayGraph_tick hp stats)) = map Latency hp"
    by (rule displayGraph_tick_field) simp
  moreover have "map PacketLoss (fst (displayGraph_tick hp stats)) = map PacketLoss hp"
    by (rule displayGraph_tick_field) simp
  moreover have "map Timestamps (fst (displayGraph_tick hp stats)) = map Timestamps hp"
    by (rule displayGraph_tick_field) simp
  moreover have "fst (saveLog created hp stats) = hp"
    by (simp add: saveLog_def)
  ultimately show ?thesis
    using rows legend displayGraph_tick_RTTs [of hp stats]
    by (simp add: displayGraph_row_def RTTs_displayGraph_trim)
qed

end
